theory Spec2Isabelle
  imports Main "HOL-Library.Sublist" "HOL-Library.Signed_Division"
begin

section \<open>The data model of main.go\<close>

text \<open>
  Go strings are byte sequences, so a Go \<^verbatim>\<open>string\<close> is a \<^typ>\<open>string\<close> (a list of
  8-bit characters) and \<^verbatim>\<open>len\<close> is \<^const>\<open>length\<close>. A slice of strings is a list; a nil
  slice and an empty slice are both \<open>[]\<close> (the code only takes their \<^verbatim>\<open>len\<close> and ranges
  over them). A value of the interface type \<^verbatim>\<open>error\<close> is its message, and \<^verbatim>\<open>nil\<close> is
  \<^const>\<open>None\<close>.
\<close>

record Tag =
  Key :: string
  Value :: string

datatype state = stateProfile | stateRegion | stateInstance | stateDone

record model =
  profiles :: "string list"
  regions :: "string list"
  instances :: "string list"
  selectedProfile :: string
  selectedRegion :: string
  selectedInstance :: string
  cursor :: int
  err :: "string option"
  step :: state
  filter_q :: string
  filteredProfiles :: "string list"
  filteredRegions :: "string list"
  filteredInstances :: "string list"
  loading :: bool
  spinnerFrame :: int
  previewTags :: "Tag list"
  previewLoading :: bool
  previewInstanceId :: string

text \<open>
  The messages \<^verbatim>\<open>Update\<close> tells apart in its type switch. A \<^verbatim>\<open>tea.KeyMsg\<close> is read
  only through \<^verbatim>\<open>msg.String()\<close>, so \<open>KeyMsg\<close> carries that string. The three anonymous
  structs are the results of \<^verbatim>\<open>regionsCmd\<close>, \<^verbatim>\<open>instancesCmd\<close> and
  \<^verbatim>\<open>previewTagsCmd\<close>. The last case of the switch, \<^verbatim>\<open>case tea.Msg\<close>, takes every other
  message, among them the empty struct that \<^verbatim>\<open>spinnerTick\<close> sends: \<open>TickMsg\<close>.
\<close>

datatype msg =
    KeyMsg string
  | RegionsMsg "string list" "string option"
  | InstancesMsg "string list" "string option"
  | TagsMsg "Tag list" string "string option"
  | TickMsg

text \<open>
  The commands \<^verbatim>\<open>Update\<close> returns: \<^verbatim>\<open>nil\<close>, \<^verbatim>\<open>tea.Quit\<close>, the three
  fetches of the source with their arguments, and a command that sleeps for a number of
  milliseconds and then sends a message.
\<close>

datatype cmd =
    NoCmd
  | Quit
  | regionsCmd string
  | instancesCmd string string
  | previewTagsCmd string string string
  | sleepThen nat msg

text \<open>
  \<^verbatim>\<open>spinnerTick\<close> (main.go 502-507): sleep for 80 milliseconds, then send the empty
  struct.
\<close>

definition spinnerTick :: cmd where
  "spinnerTick = sleepThen 80 TickMsg"

datatype panic = IndexOutOfRange

text \<open>
  Control flow inside the keyboard branch of \<^verbatim>\<open>Update\<close>: a block either panics, or
  returns from \<^verbatim>\<open>Update\<close> with a model and a command, or falls through to the next
  block with the model it has built so far.
\<close>

datatype flow = Abort panic | Return model cmd | Next model

definition and_then :: "flow \<Rightarrow> (model \<Rightarrow> flow) \<Rightarrow> flow" where
  "and_then f g = (case f of Abort p \<Rightarrow> Abort p | Return m c \<Rightarrow> Return m c | Next m \<Rightarrow> g m)"

section \<open>Library functions the code calls\<close>

text \<open>The ten spinner frames, as their UTF-8 bytes (U+280B, U+2819, ...).\<close>

definition spinnerFrames :: "string list" where
  "spinnerFrames =
    [CHR 0xE2, CHR 0xA0, CHR 0x8B] # [CHR 0xE2, CHR 0xA0, CHR 0x99] #
    [CHR 0xE2, CHR 0xA0, CHR 0xB9] # [CHR 0xE2, CHR 0xA0, CHR 0xB8] #
    [CHR 0xE2, CHR 0xA0, CHR 0xBC] # [CHR 0xE2, CHR 0xA0, CHR 0xB4] #
    [CHR 0xE2, CHR 0xA0, CHR 0xA6] # [CHR 0xE2, CHR 0xA0, CHR 0xA7] #
    [CHR 0xE2, CHR 0xA0, CHR 0x87] # [CHR 0xE2, CHR 0xA0, CHR 0x8F] # []"

text \<open>Indexing a slice panics outside \<open>[0, len)\<close>.\<close>

definition index :: "'a list \<Rightarrow> int \<Rightarrow> panic + 'a" where
  "index xs i = (if 0 \<le> i \<and> i < int (length xs) then Inr (xs ! nat i) else Inl IndexOutOfRange)"

text \<open>
  Go's \<^verbatim>\<open>int\<close> is 64 bits wide here: \<open>wrap64\<close> is the two's complement wrap-around of
  an addition, and \<^verbatim>\<open>%\<close> is the remainder of the truncating division, \<^const>\<open>signed_modulo\<close>.
  The cursor needs no wrap: it is only decremented when positive and only incremented
  below a slice length.
\<close>

definition wrap64 :: "int \<Rightarrow> int" where
  "wrap64 k = (k + 2 ^ 63) mod 2 ^ 64 - 2 ^ 63"

text \<open>
  \<^verbatim>\<open>strings.ToLower\<close>: a string of ASCII bytes only has its letters \<open>A\<close> to \<open>Z\<close>
  replaced, byte by byte; any other string goes through \<^verbatim>\<open>strings.Map(unicode.ToLower, s)\<close>,
  whose Unicode tables are not part of this program: that path is the parameter
  \<open>uni\<close> of everything that filters.
\<close>

definition lowerASCII :: "char \<Rightarrow> char" where
  "lowerASCII c =
    (if (65::nat) \<le> of_char c \<and> of_char c \<le> (90::nat) then char_of (of_char c + (32::nat)) else c)"

definition isASCII :: "string \<Rightarrow> bool" where
  "isASCII s = list_all (\<lambda>c. of_char c < (128::nat)) s"

definition ToLower :: "(string \<Rightarrow> string) \<Rightarrow> string \<Rightarrow> string" where
  "ToLower uni s = (if isASCII s then map lowerASCII s else uni s)"

text \<open>\<^verbatim>\<open>strings.Contains(s, substr)\<close>: does \<open>substr\<close> start at some position of \<open>s\<close>?\<close>

fun Contains :: "string \<Rightarrow> string \<Rightarrow> bool" where
  "Contains [] substr = (substr = [])"
| "Contains (c # cs) substr = (prefix substr (c # cs) \<or> Contains cs substr)"

text \<open>
  \<^verbatim>\<open>strings.Split(s, sep)\<close> for a separator of one byte: the pieces of \<open>s\<close> between
  the separators, always at least one piece.
\<close>

fun Split :: "string \<Rightarrow> char \<Rightarrow> string list" where
  "Split [] sep = [] # []"
| "Split (c # cs) sep =
    (if c = sep then [] # Split cs sep
     else (case Split cs sep of [] \<Rightarrow> [c] # [] | w # ws \<Rightarrow> (c # w) # ws))"

section \<open>filterList\<close>

text \<open>
  The loop of \<^verbatim>\<open>filterList\<close> appends each matching item to \<open>out\<close>, in the order of the
  input.
\<close>

definition filterList :: "(string \<Rightarrow> string) \<Rightarrow> string list \<Rightarrow> string \<Rightarrow> string list" where
  "filterList uni list flt =
    (if flt = [] then list
     else let f = ToLower uni flt
          in foldl (\<lambda>out item. if Contains (ToLower uni item) f then out @ [item] else out) [] list)"

section \<open>Update\<close>

text \<open>
  \<^verbatim>\<open>strings.Split(item, " ")[0]\<close>, the expression that reads an instance identifier
  off a display string.
\<close>

definition extractId :: "string \<Rightarrow> panic + string" where
  "extractId item = index (Split item (CHR '' '')) 0"

text \<open>
  The three lines that start a tag preview for the entry under the cursor and return
  (main.go 306-308, and again at 324, 345, 363 and 446).
\<close>

definition preview :: "model \<Rightarrow> flow" where
  "preview m =
    (case index (filteredInstances m) (cursor m) of
       Inl p \<Rightarrow> Abort p
     | Inr item \<Rightarrow>
        (case extractId item of
           Inl p \<Rightarrow> Abort p
         | Inr ident \<Rightarrow>
            (let m1 = m\<lparr>previewLoading := True, previewInstanceId := ident\<rparr>
             in Return m1 (previewTagsCmd (selectedProfile m1) (selectedRegion m1)
                  (previewInstanceId m1)))))"

text \<open>The body of \<^verbatim>\<open>case "up"\<close>, which the source repeats for \<^verbatim>\<open>case "k"\<close>.\<close>

definition cursorUp :: "model \<Rightarrow> flow" where
  "cursorUp m =
    (case step m of
       stateProfile \<Rightarrow> Next (if cursor m > 0 then m\<lparr>cursor := cursor m - 1\<rparr> else m)
     | stateRegion \<Rightarrow> Next (if cursor m > 0 then m\<lparr>cursor := cursor m - 1\<rparr> else m)
     | stateInstance \<Rightarrow>
        (if cursor m > 0 then preview (m\<lparr>cursor := cursor m - 1\<rparr>) else Next m)
     | stateDone \<Rightarrow> Next m)"

text \<open>The body of \<^verbatim>\<open>case "down"\<close>, which the source repeats for \<^verbatim>\<open>case "j"\<close>.\<close>

definition cursorDown :: "model \<Rightarrow> flow" where
  "cursorDown m =
    (case step m of
       stateProfile \<Rightarrow>
        Next (if cursor m < int (length (filteredProfiles m)) - 1
              then m\<lparr>cursor := cursor m + 1\<rparr> else m)
     | stateRegion \<Rightarrow>
        Next (if cursor m < int (length (filteredRegions m)) - 1
              then m\<lparr>cursor := cursor m + 1\<rparr> else m)
     | stateInstance \<Rightarrow>
        (if cursor m < int (length (filteredInstances m)) - 1
         then preview (m\<lparr>cursor := cursor m + 1\<rparr>) else Next m)
     | stateDone \<Rightarrow> Next m)"

text \<open>The first \<^verbatim>\<open>switch s\<close> after the loading gate (main.go 292-329).\<close>

definition arrows :: "string \<Rightarrow> model \<Rightarrow> flow" where
  "arrows s m =
    (if s = ''up'' then cursorUp m else if s = ''down'' then cursorDown m else Next m)"

text \<open>The block \<^verbatim>\<open>if m.filter == ""\<close> (main.go 330-369).\<close>

definition letters :: "string \<Rightarrow> model \<Rightarrow> flow" where
  "letters s m =
    (if filter_q m = []
     then (if s = ''k'' then cursorUp m else if s = ''j'' then cursorDown m else Next m)
     else Next m)"

text \<open>\<^verbatim>\<open>case "enter"\<close> (main.go 371-397).\<close>

definition enter :: "model \<Rightarrow> flow" where
  "enter m =
    (case step m of
       stateProfile \<Rightarrow>
        (if length (filteredProfiles m) = 0
         then Return (m\<lparr>err := Some ''no AWS profiles found''\<rparr>) Quit
         else (case index (filteredProfiles m) (cursor m) of
                 Inl p \<Rightarrow> Abort p
               | Inr item \<Rightarrow>
                  (let m1 = m\<lparr>selectedProfile := item, loading := True\<rparr>
                   in Return m1 (regionsCmd (selectedProfile m1)))))
     | stateRegion \<Rightarrow>
        (if length (filteredRegions m) = 0
         then Return (m\<lparr>err := Some ''no regions found''\<rparr>) Quit
         else (case index (filteredRegions m) (cursor m) of
                 Inl p \<Rightarrow> Abort p
               | Inr item \<Rightarrow>
                  (let m1 = m\<lparr>selectedRegion := item, loading := True\<rparr>
                   in Return m1 (instancesCmd (selectedProfile m1) (selectedRegion m1)))))
     | stateInstance \<Rightarrow>
        (if length (filteredInstances m) = 0
         then Return (m\<lparr>err := Some ''no instances found''\<rparr>) Quit
         else (case index (filteredInstances m) (cursor m) of
                 Inl p \<Rightarrow> Abort p
               | Inr item \<Rightarrow>
                  (case extractId item of
                     Inl p \<Rightarrow> Abort p
                   | Inr ident \<Rightarrow>
                      Return (m\<lparr>selectedInstance := ident, step := stateDone\<rparr>) Quit)))
     | stateDone \<Rightarrow> Next m)"

text \<open>The test on a key string that lets it into the filter (main.go 404).\<close>

definition printable :: "string \<Rightarrow> bool" where
  "printable s =
    (length s = 1 \<and> (32::nat) \<le> of_char (s ! 0) \<and> of_char (s ! 0) \<le> (126::nat))"

text \<open>The second \<^verbatim>\<open>switch s\<close> (main.go 370-407): enter, backspace, or a printable key.\<close>

definition edit :: "string \<Rightarrow> model \<Rightarrow> flow" where
  "edit s m =
    (if s = ''enter'' then enter m
     else if s = ''backspace''
     then Next (if length (filter_q m) > 0 then m\<lparr>filter_q := butlast (filter_q m)\<rparr> else m)
     else Next (if printable s then m\<lparr>filter_q := filter_q m @ s\<rparr> else m))"

text \<open>
  The cursor after the clamp the source writes out for each stage (main.go 412-421):
  \<open>n\<close> is the length of the new filtered list.
\<close>

definition clampCursor :: "int \<Rightarrow> nat \<Rightarrow> int" where
  "clampCursor c n =
    (if n = 0 then 0
     else (let c1 = (if c \<ge> int n then int n - 1 else c)
           in if c1 < 0 then 0 else c1))"

text \<open>\<^verbatim>\<open>// Update filtered lists\<close> (main.go 408-450).\<close>

definition refilter :: "(string \<Rightarrow> string) \<Rightarrow> model \<Rightarrow> flow" where
  "refilter uni m =
    (case step m of
       stateProfile \<Rightarrow>
        (let m1 = m\<lparr>filteredProfiles := filterList uni (profiles m) (filter_q m)\<rparr>
         in Next (m1\<lparr>cursor := clampCursor (cursor m1) (length (filteredProfiles m1))\<rparr>))
     | stateRegion \<Rightarrow>
        (let m1 = m\<lparr>filteredRegions := filterList uni (regions m) (filter_q m)\<rparr>
         in Next (m1\<lparr>cursor := clampCursor (cursor m1) (length (filteredRegions m1))\<rparr>))
     | stateInstance \<Rightarrow>
        (let m1 = m\<lparr>filteredInstances := filterList uni (instances m) (filter_q m)\<rparr>
         in if length (filteredInstances m1) = 0 then Next (m1\<lparr>cursor := 0\<rparr>)
            else preview (m1\<lparr>cursor := clampCursor (cursor m1) (length (filteredInstances m1))\<rparr>))
     | stateDone \<Rightarrow> Next m)"

text \<open>The end of \<^verbatim>\<open>Update\<close>, reached by every branch that does not return (main.go 495-499).\<close>

definition finish :: "model \<Rightarrow> model \<times> cmd" where
  "finish m = (m, if loading m then spinnerTick else NoCmd)"

definition conclude :: "flow \<Rightarrow> panic + model \<times> cmd" where
  "conclude f = (case f of Abort p \<Rightarrow> Inl p | Return m c \<Rightarrow> Inr (m, c) | Next m \<Rightarrow> Inr (finish m))"

definition quitKey :: "string \<Rightarrow> bool" where
  "quitKey s = (s = ''cmd+q'' \<or> s = ''cmd+c'' \<or> s = ''esc'')"

definition Update :: "(string \<Rightarrow> string) \<Rightarrow> model \<Rightarrow> msg \<Rightarrow> panic + model \<times> cmd" where
  "Update uni m ms =
    (case ms of
       KeyMsg s \<Rightarrow>
        (if quitKey s then Inr (m, Quit)
         else if loading m then Inr (m, NoCmd)
         else conclude (and_then (and_then (and_then (arrows s m) (letters s)) (edit s))
                 (refilter uni)))
     | RegionsMsg rs e \<Rightarrow>
        (let m1 = m\<lparr>loading := False\<rparr>
         in (case e of
               Some x \<Rightarrow> Inr (m1\<lparr>err := Some x\<rparr>, NoCmd)
             | None \<Rightarrow>
                Inr (finish (m1\<lparr>regions := rs, filteredRegions := rs, cursor := 0,
                       filter_q := [], step := stateRegion\<rparr>))))
     | InstancesMsg insts e \<Rightarrow>
        (let m1 = m\<lparr>loading := False\<rparr>
         in (case e of
               Some x \<Rightarrow> Inr (m1\<lparr>err := Some x\<rparr>, NoCmd)
             | None \<Rightarrow>
                Inr (finish (m1\<lparr>instances := insts, filteredInstances := insts, cursor := 0,
                       filter_q := [], step := stateInstance\<rparr>))))
     | TagsMsg tags ident e \<Rightarrow>
        Inr (finish (if ident = previewInstanceId m
                     then m\<lparr>previewTags := tags, previewLoading := False\<rparr> else m))
     | TickMsg \<Rightarrow>
        (if loading m
         then Inr (m\<lparr>spinnerFrame :=
                     wrap64 (spinnerFrame m + 1) smod int (length spinnerFrames)\<rparr>, spinnerTick)
         else Inr (finish m)))"

text \<open>
  \<^verbatim>\<open>initialModel\<close>, given what \<^verbatim>\<open>getProfiles\<close> returned; the fields the source does
  not name hold Go's zero values.
\<close>

definition initialModel :: "string list \<Rightarrow> string option \<Rightarrow> model" where
  "initialModel ps e =
    \<lparr>profiles = ps, regions = [], instances = [],
     selectedProfile = [], selectedRegion = [], selectedInstance = [],
     cursor = 0, err = e, step = stateProfile, filter_q = [],
     filteredProfiles = ps, filteredRegions = [], filteredInstances = [],
     loading = False, spinnerFrame = 0,
     previewTags = [], previewLoading = False, previewInstanceId = []\<rparr>"

text \<open>
  The states the event loop can be in: it starts from \<^verbatim>\<open>initialModel()\<close> and hands
  every message to \<^verbatim>\<open>Update\<close>, one at a time. Any message may come at any time here,
  which covers every order in which the asynchronous results can arrive.
\<close>

inductive reachable :: "(string \<Rightarrow> string) \<Rightarrow> model \<Rightarrow> bool" for uni :: "string \<Rightarrow> string" where
  reach_init: "reachable uni (initialModel ps e)"
| reach_step: "reachable uni m \<Longrightarrow> Update uni m ms = Inr (m', c) \<Longrightarrow> reachable uni m'"

text \<open>The event loop on a list of messages, commands dropped: the model after the last one.\<close>

fun runMsgs :: "(string \<Rightarrow> string) \<Rightarrow> model \<Rightarrow> msg list \<Rightarrow> panic + model" where
  "runMsgs uni m [] = Inr m"
| "runMsgs uni m (ms # rest) =
    (case Update uni m ms of Inl p \<Rightarrow> Inl p | Inr (m', c) \<Rightarrow> runMsgs uni m' rest)"

text \<open>
  The cursor invariant of a stage: an index into the stage's filtered list, and 0 when
  that list is empty. The stage \<open>stateDone\<close> has no list.
\<close>

definition inBounds :: "int \<Rightarrow> string list \<Rightarrow> bool" where
  "inBounds c xs = (if xs = [] then c = 0 else 0 \<le> c \<and> c < int (length xs))"

definition cursorOK :: "model \<Rightarrow> bool" where
  "cursorOK m =
    (case step m of
       stateProfile \<Rightarrow> inBounds (cursor m) (filteredProfiles m)
     | stateRegion \<Rightarrow> inBounds (cursor m) (filteredRegions m)
     | stateInstance \<Rightarrow> inBounds (cursor m) (filteredInstances m)
     | stateDone \<Rightarrow> True)"

text \<open>
  What holds of every state the loop can be in: the cursor invariant, a spinner frame
  that indexes \<open>spinnerFrames\<close>, and no load outstanding once the stage is
  \<open>stateDone\<close>.
\<close>

definition navInv :: "model \<Rightarrow> bool" where
  "navInv m =
    (cursorOK m \<and> 0 \<le> spinnerFrame m \<and> spinnerFrame m < int (length spinnerFrames) \<and>
     (step m = stateDone \<longrightarrow> \<not> loading m))"

text \<open>
  A block of the keyboard branch behaves: it does not panic, a model it returns
  satisfies \<open>R\<close>, and a model it passes on satisfies \<open>N\<close>.
\<close>

definition flowOK :: "(model \<Rightarrow> bool) \<Rightarrow> (model \<Rightarrow> bool) \<Rightarrow> flow \<Rightarrow> bool" where
  "flowOK R N f = (case f of Abort p \<Rightarrow> False | Return m c \<Rightarrow> R m | Next m \<Rightarrow> N m)"

text \<open>
  The filter engine in the words of the specification: \<open>item\<close> contains \<open>q\<close> as a
  case-insensitive substring when the lower-cased query occurs, as a contiguous run of
  bytes, in the lower-cased item.
\<close>

definition ciSubstring :: "(string \<Rightarrow> string) \<Rightarrow> string \<Rightarrow> string \<Rightarrow> bool" where
  "ciSubstring uni q item = sublist (ToLower uni q) (ToLower uni item)"

text \<open>
  The same for a block that may panic: \<open>R\<close> and \<open>N\<close> hold of the model if it does
  not.
\<close>

definition flowIf :: "(model \<Rightarrow> bool) \<Rightarrow> (model \<Rightarrow> bool) \<Rightarrow> flow \<Rightarrow> bool" where
  "flowIf R N f = (case f of Abort p \<Rightarrow> True | Return m c \<Rightarrow> R m | Next m \<Rightarrow> N m)"

text \<open>
  A stage that was entered with an empty list: the region stage, or the instance stage,
  with nothing to select, nothing left by the filter, and no load outstanding.
\<close>

definition emptyRegions :: "model \<Rightarrow> bool" where
  "emptyRegions m =
    (step m = stateRegion \<and> regions m = [] \<and> filteredRegions m = [] \<and> cursor m = 0 \<and>
     \<not> loading m)"

definition emptyInstances :: "model \<Rightarrow> bool" where
  "emptyInstances m =
    (step m = stateInstance \<and> instances m = [] \<and> filteredInstances m = [] \<and> cursor m = 0 \<and>
     \<not> loading m)"

text \<open>What the keyboard branch can rely on once it is past the loading gate.\<close>

definition keyInv :: "model \<Rightarrow> bool" where
  "keyInv m = (navInv m \<and> \<not> loading m)"

section \<open>Facts about the library functions\<close>

lemma Contains_sublist: "Contains s sub \<longleftrightarrow> sublist sub s"
  by (induction s) (simp_all add: sublist_Cons_right)

lemma foldl_append_filter:
  "foldl (\<lambda>out item. if P item then out @ [item] else out) acc xs = acc @ filter P xs"
  by (induction xs arbitrary: acc) simp_all

lemma filterList_filter:
  "flt \<noteq> [] \<Longrightarrow>
    filterList uni list flt = filter (\<lambda>item. sublist (ToLower uni flt) (ToLower uni item)) list"
  by (simp add: filterList_def Let_def foldl_append_filter Contains_sublist)

lemma Split_not_Nil: "Split s sep \<noteq> []"
  by (induction s) (simp_all split: list.splits)

lemma hd_Split: "hd (Split s sep) = takeWhile (\<lambda>c. c \<noteq> sep) s"
  by (induction s) (auto split: list.splits simp: Split_not_Nil)

lemma extractId_takeWhile: "extractId item = Inr (takeWhile (\<lambda>c. c \<noteq> CHR '' '') item)"
  using Split_not_Nil [of item "CHR '' ''"] hd_Split [of item "CHR '' ''"]
  by (cases "Split item (CHR '' '')") (simp_all add: extractId_def index_def)

lemma map_sublist_iff:
  "sublist (map f q) (map f x) \<longleftrightarrow> (\<exists>u. sublist u x \<and> map f u = map f q)"
proof
  assume "sublist (map f q) (map f x)"
  then obtain ps ss where eq: "map f x = ps @ (map f q @ ss)"
    unfolding sublist_def by blast
  from eq [unfolded map_eq_append_conv]
  obtain p r where pr: "x = p @ r" and r: "map f q @ ss = map f r"
    by blast
  from r [unfolded append_eq_map_conv]
  obtain u s where us: "r = u @ s" and u: "map f q = map f u"
    by blast
  have "x = p @ u @ s" using pr us by simp
  then have "sublist u x" unfolding sublist_def by blast
  with u show "\<exists>u. sublist u x \<and> map f u = map f q"
    by auto
next
  assume "\<exists>u. sublist u x \<and> map f u = map f q"
  then obtain u where "sublist u x" "map f u = map f q" by blast
  then show "sublist (map f q) (map f x)"
    using map_mono_sublist [of u x f] by simp
qed

section \<open>The invariant of the event loop\<close>

lemma index_inBounds:
  "xs \<noteq> [] \<Longrightarrow> inBounds c xs \<Longrightarrow> index xs c = Inr (xs ! nat c)"
  by (simp add: index_def inBounds_def)

lemma inBounds_clampCursor: "inBounds (clampCursor c (length xs)) xs"
  by (auto simp: inBounds_def clampCursor_def Let_def)

lemma preview_inBounds:
  "filteredInstances m \<noteq> [] \<Longrightarrow> inBounds (cursor m) (filteredInstances m) \<Longrightarrow>
    preview m =
      Return (m\<lparr>previewLoading := True,
                previewInstanceId :=
                  takeWhile (\<lambda>c. c \<noteq> CHR '' '') (filteredInstances m ! nat (cursor m))\<rparr>)
        (previewTagsCmd (selectedProfile m) (selectedRegion m)
          (takeWhile (\<lambda>c. c \<noteq> CHR '' '') (filteredInstances m ! nat (cursor m))))"
  by (simp add: preview_def index_inBounds extractId_takeWhile)

lemma flowOK_and_then:
  "flowOK R N f \<Longrightarrow> (\<And>m. N m \<Longrightarrow> flowOK R N (g m)) \<Longrightarrow> flowOK R N (and_then f g)"
  by (cases f) (simp_all add: flowOK_def and_then_def)

lemma cursorUp_ok: "keyInv m \<Longrightarrow> flowOK navInv keyInv (cursorUp m)"
proof (cases "step m")
  case stateInstance
  assume k: "keyInv m"
  show ?thesis
  proof (cases "cursor m > 0")
    case True
    let ?m = "m\<lparr>cursor := cursor m - 1\<rparr>"
    from k stateInstance True have ne: "filteredInstances ?m \<noteq> []"
      and ib: "inBounds (cursor ?m) (filteredInstances ?m)"
      by (auto simp: keyInv_def navInv_def cursorOK_def inBounds_def split: if_splits)
    show ?thesis
      using k stateInstance True ib
      by (simp add: cursorUp_def preview_inBounds [OF ne ib] flowOK_def keyInv_def navInv_def
          cursorOK_def)
  next
    case False
    with k stateInstance show ?thesis by (simp add: cursorUp_def flowOK_def)
  qed
qed (auto simp: cursorUp_def flowOK_def keyInv_def navInv_def cursorOK_def inBounds_def
      split: if_splits)

lemma cursorDown_ok: "keyInv m \<Longrightarrow> flowOK navInv keyInv (cursorDown m)"
proof (cases "step m")
  case stateInstance
  assume k: "keyInv m"
  show ?thesis
  proof (cases "cursor m < int (length (filteredInstances m)) - 1")
    case True
    let ?m = "m\<lparr>cursor := cursor m + 1\<rparr>"
    from k stateInstance True have ne: "filteredInstances ?m \<noteq> []"
      and ib: "inBounds (cursor ?m) (filteredInstances ?m)"
      by (auto simp: keyInv_def navInv_def cursorOK_def inBounds_def split: if_splits)
    show ?thesis
      using k stateInstance True ib
      by (simp add: cursorDown_def preview_inBounds [OF ne ib] flowOK_def keyInv_def navInv_def
          cursorOK_def)
  next
    case False
    with k stateInstance show ?thesis by (simp add: cursorDown_def flowOK_def)
  qed
qed (auto simp: cursorDown_def flowOK_def keyInv_def navInv_def cursorOK_def inBounds_def
      split: if_splits)

lemma arrows_ok: "keyInv m \<Longrightarrow> flowOK navInv keyInv (arrows s m)"
  by (simp add: arrows_def cursorUp_ok cursorDown_ok) (simp add: flowOK_def)

lemma letters_ok: "keyInv m \<Longrightarrow> flowOK navInv keyInv (letters s m)"
  by (simp add: letters_def cursorUp_ok cursorDown_ok) (simp add: flowOK_def)

lemma enter_ok: "keyInv m \<Longrightarrow> flowOK navInv keyInv (enter m)"
  by (cases "step m")
     (auto simp: enter_def flowOK_def keyInv_def navInv_def cursorOK_def index_inBounds
       extractId_takeWhile Let_def)

lemma edit_ok: "keyInv m \<Longrightarrow> flowOK navInv keyInv (edit s m)"
  by (simp add: edit_def enter_ok)
     (auto simp: flowOK_def keyInv_def navInv_def cursorOK_def split: state.splits)

lemma refilter_ok: "keyInv m \<Longrightarrow> flowOK navInv keyInv (refilter uni m)"
proof (cases "step m")
  case stateInstance
  assume k: "keyInv m"
  let ?fi = "filterList uni (instances m) (filter_q m)"
  let ?m = "m\<lparr>filteredInstances := ?fi, cursor := clampCursor (cursor m) (length ?fi)\<rparr>"
  show ?thesis
  proof (cases "?fi = []")
    case True
    with k stateInstance show ?thesis
      by (simp add: refilter_def flowOK_def keyInv_def navInv_def cursorOK_def inBounds_def)
  next
    case False
    then have ne: "filteredInstances ?m \<noteq> []" by simp
    have ib: "inBounds (cursor ?m) (filteredInstances ?m)"
      by (simp add: inBounds_clampCursor)
    show ?thesis
      using k stateInstance False ib
      by (simp add: refilter_def preview_inBounds [OF ne ib] flowOK_def keyInv_def navInv_def
          cursorOK_def)
  qed
qed (auto simp: refilter_def flowOK_def keyInv_def navInv_def cursorOK_def inBounds_clampCursor)

lemma conclude_ok:
  "flowOK navInv keyInv f \<Longrightarrow> \<exists>m' c. conclude f = Inr (m', c) \<and> navInv m'"
  by (cases f) (simp_all add: flowOK_def conclude_def finish_def keyInv_def)

lemma key_ok:
  assumes "navInv m"
  shows "\<exists>m' c. Update uni m (KeyMsg s) = Inr (m', c) \<and> navInv m'"
proof (cases "quitKey s \<or> loading m")
  case True
  with assms show ?thesis by (auto simp: Update_def)
next
  case False
  with assms have k: "keyInv m" by (simp add: keyInv_def)
  have "flowOK navInv keyInv
      (and_then (and_then (and_then (arrows s m) (letters s)) (edit s)) (refilter uni))"
    by (intro flowOK_and_then arrows_ok letters_ok edit_ok refilter_ok k)
  from conclude_ok [OF this] False show ?thesis by (simp add: Update_def)
qed

lemma frame_step:
  "0 \<le> f \<Longrightarrow> f < 10 \<Longrightarrow> wrap64 (f + 1) smod 10 = (f + 1) mod 10"
  by (simp add: wrap64_def signed_modulo_int_def add.commute)

lemma Update_navInv:
  assumes "navInv m"
  shows "\<exists>m' c. Update uni m ms = Inr (m', c) \<and> navInv m'"
proof (cases ms)
  case (KeyMsg s)
  with key_ok [OF assms] show ?thesis by simp
next
  case (RegionsMsg rs e)
  with assms show ?thesis
    by (cases e)
       (auto simp: Update_def finish_def navInv_def cursorOK_def inBounds_def split: state.splits)
next
  case (InstancesMsg insts e)
  with assms show ?thesis
    by (cases e)
       (auto simp: Update_def finish_def navInv_def cursorOK_def inBounds_def split: state.splits)
next
  case (TagsMsg tags ident e)
  with assms show ?thesis
    by (auto simp: Update_def finish_def navInv_def cursorOK_def split: state.splits)
next
  case TickMsg
  with assms show ?thesis
    by (auto simp: Update_def finish_def navInv_def cursorOK_def spinnerFrames_def frame_step
        split: state.splits)
qed

lemma navInv_initialModel: "navInv (initialModel ps e)"
  by (simp add: navInv_def initialModel_def cursorOK_def inBounds_def spinnerFrames_def)

lemma reachable_navInv: "reachable uni m \<Longrightarrow> navInv m"
proof (induction rule: reachable.induct)
  case (reach_init ps e)
  show ?case by (rule navInv_initialModel)
next
  case (reach_step m ms m' c)
  with Update_navInv [of m uni ms] show ?case by auto
qed

lemma key_enter:
  "\<not> loading m \<Longrightarrow>
    Update uni m (KeyMsg ''enter'') = conclude (and_then (enter m) (refilter uni))"
  by (simp add: Update_def quitKey_def arrows_def letters_def edit_def and_then_def)

section \<open>Errors, loading and empty stages\<close>

lemma flowIf_and_then:
  "flowIf R N f \<Longrightarrow> (\<And>m. N m \<Longrightarrow> flowIf R N (g m)) \<Longrightarrow> flowIf R N (and_then f g)"
  by (cases f) (simp_all add: flowIf_def and_then_def)

lemma preview_err:
  "\<not> loading m \<Longrightarrow> flowIf (\<lambda>x. err x = err m \<or> \<not> loading x) N (preview m)"
  by (simp add: preview_def flowIf_def Let_def split: sum.splits)

lemma cursorUp_err:
  "err m = e \<and> \<not> loading m \<Longrightarrow>
    flowIf (\<lambda>x. err x = e \<or> \<not> loading x) (\<lambda>x. err x = e \<and> \<not> loading x) (cursorUp m)"
  by (cases "step m")
     (auto simp: cursorUp_def preview_def flowIf_def Let_def split: sum.splits)

lemma cursorDown_err:
  "err m = e \<and> \<not> loading m \<Longrightarrow>
    flowIf (\<lambda>x. err x = e \<or> \<not> loading x) (\<lambda>x. err x = e \<and> \<not> loading x) (cursorDown m)"
  by (cases "step m")
     (auto simp: cursorDown_def preview_def flowIf_def Let_def split: sum.splits)

lemma arrows_err:
  "err m = e \<and> \<not> loading m \<Longrightarrow>
    flowIf (\<lambda>x. err x = e \<or> \<not> loading x) (\<lambda>x. err x = e \<and> \<not> loading x) (arrows s m)"
  using cursorUp_err [of m e] cursorDown_err [of m e]
  by (simp add: arrows_def) (simp add: flowIf_def)

lemma letters_err:
  "err m = e \<and> \<not> loading m \<Longrightarrow>
    flowIf (\<lambda>x. err x = e \<or> \<not> loading x) (\<lambda>x. err x = e \<and> \<not> loading x) (letters s m)"
  using cursorUp_err [of m e] cursorDown_err [of m e]
  by (simp add: letters_def) (simp add: flowIf_def)

lemma enter_err:
  "err m = e \<and> \<not> loading m \<Longrightarrow>
    flowIf (\<lambda>x. err x = e \<or> \<not> loading x) (\<lambda>x. err x = e \<and> \<not> loading x) (enter m)"
  by (cases "step m")
     (auto simp: enter_def flowIf_def Let_def split: sum.splits)

lemma edit_err:
  "err m = e \<and> \<not> loading m \<Longrightarrow>
    flowIf (\<lambda>x. err x = e \<or> \<not> loading x) (\<lambda>x. err x = e \<and> \<not> loading x) (edit s m)"
  using enter_err [of m e]
  by (simp add: edit_def) (simp add: flowIf_def)

lemma refilter_err:
  "err m = e \<and> \<not> loading m \<Longrightarrow>
    flowIf (\<lambda>x. err x = e \<or> \<not> loading x) (\<lambda>x. err x = e \<and> \<not> loading x) (refilter uni m)"
  by (cases "step m")
     (auto simp: refilter_def preview_def flowIf_def Let_def split: sum.splits)

lemma key_err:
  assumes "\<not> loading m"
  shows "flowIf (\<lambda>x. err x = err m \<or> \<not> loading x) (\<lambda>x. err x = err m \<and> \<not> loading x)
      (and_then (and_then (and_then (arrows s m) (letters s)) (edit s)) (refilter uni))"
  by (intro flowIf_and_then arrows_err letters_err edit_err refilter_err) (simp_all add: assms)

lemma new_error_not_loading:
  assumes "Update uni m ms = Inr (m', c)" and "err m' \<noteq> err m"
  shows "\<not> loading m'"
proof (cases ms)
  case (KeyMsg s)
  show ?thesis
  proof (cases "quitKey s \<or> loading m")
    case True
    with assms KeyMsg show ?thesis by (auto simp: Update_def split: if_splits)
  next
    case False
    then have nl: "\<not> loading m" by simp
    from assms(1) KeyMsg False
    have c: "conclude (and_then (and_then (and_then (arrows s m) (letters s)) (edit s))
        (refilter uni)) = Inr (m', c)"
      by (simp add: Update_def)
    from key_err [OF nl, of s uni] c assms(2) show ?thesis
      by (auto simp: conclude_def flowIf_def finish_def split: flow.splits)
  qed
next
  case (RegionsMsg rs e)
  with assms show ?thesis by (cases e) (auto simp: Update_def finish_def)
next
  case (InstancesMsg insts e)
  with assms show ?thesis by (cases e) (auto simp: Update_def finish_def)
next
  case (TagsMsg tags ident e)
  with assms show ?thesis by (auto simp: Update_def finish_def split: if_splits)
next
  case TickMsg
  with assms show ?thesis by (auto simp: Update_def finish_def split: if_splits)
qed

lemma filterList_Nil: "filterList uni [] q = []"
  by (simp add: filterList_def)

lemma clampCursor_0: "clampCursor c 0 = 0"
  by (simp add: clampCursor_def)

lemma emptyRegions_key:
  assumes "emptyRegions m" and "s \<noteq> ''enter''"
  shows "\<exists>m' c. Update uni m (KeyMsg s) = Inr (m', c) \<and> emptyRegions m' \<and> err m' = err m"
  using assms
  by (auto simp: emptyRegions_def Update_def arrows_def letters_def edit_def refilter_def
      cursorUp_def cursorDown_def and_then_def conclude_def finish_def filterList_Nil
      clampCursor_0)

lemma emptyInstances_key:
  assumes "emptyInstances m" and "s \<noteq> ''enter''"
  shows "\<exists>m' c. Update uni m (KeyMsg s) = Inr (m', c) \<and> emptyInstances m' \<and> err m' = err m"
  using assms
  by (auto simp: emptyInstances_def Update_def arrows_def letters_def edit_def refilter_def
      cursorUp_def cursorDown_def and_then_def conclude_def finish_def filterList_Nil
      clampCursor_0)

lemma runMsgs_reachable:
  "reachable uni m \<Longrightarrow> runMsgs uni m msgs = Inr m' \<Longrightarrow> reachable uni m'"
proof (induction msgs arbitrary: m)
  case Nil
  then show ?case by simp
next
  case (Cons ms rest)
  from Cons.prems(2) obtain m1 c where u: "Update uni m ms = Inr (m1, c)"
    and r: "runMsgs uni m1 rest = Inr m'"
    by (auto split: sum.splits)
  from Cons.prems(1) u have "reachable uni m1" by (rule reach_step)
  from Cons.IH [OF this r] show ?case .
qed

section \<open>The way into the last stage\<close>

lemma preview_step: "preview m = Return x c \<Longrightarrow> step x = step m"
  by (auto simp: preview_def Let_def split: sum.splits)

lemma preview_not_Next: "preview m \<noteq> Next x"
  by (auto simp: preview_def Let_def split: sum.splits)

lemma cursorUp_step:
  "(cursorUp m = Return x c \<longrightarrow> step x = step m) \<and> (cursorUp m = Next x \<longrightarrow> step x = step m)"
  by (cases "step m") (auto simp: cursorUp_def preview_not_Next dest: preview_step split: if_splits)

lemma cursorDown_step:
  "(cursorDown m = Return x c \<longrightarrow> step x = step m) \<and> (cursorDown m = Next x \<longrightarrow> step x = step m)"
  by (cases "step m") (auto simp: cursorDown_def preview_not_Next dest: preview_step split: if_splits)

lemma arrows_step:
  "(arrows s m = Return x c \<longrightarrow> step x = step m) \<and> (arrows s m = Next x \<longrightarrow> step x = step m)"
  using cursorUp_step [of m x c] cursorDown_step [of m x c]
  by (auto simp: arrows_def)

lemma letters_step:
  "(letters s m = Return x c \<longrightarrow> step x = step m) \<and> (letters s m = Next x \<longrightarrow> step x = step m)"
  using cursorUp_step [of m x c] cursorDown_step [of m x c]
  by (auto simp: letters_def split: if_splits)

lemma enter_step:
  "(enter m = Return x c \<longrightarrow>
      step x = step m \<or> (step m = stateInstance \<and> step x = stateDone \<and> c = Quit)) \<and>
   (enter m = Next x \<longrightarrow> step x = step m)"
  by (cases "step m") (auto simp: enter_def Let_def split: if_splits sum.splits)

lemma edit_step:
  "(edit s m = Return x c \<longrightarrow>
      step x = step m \<or>
      (s = ''enter'' \<and> step m = stateInstance \<and> step x = stateDone \<and> c = Quit)) \<and>
   (edit s m = Next x \<longrightarrow> step x = step m)"
  using enter_step [of m x c]
  by (auto simp: edit_def split: if_splits)

lemma refilter_step:
  "(refilter uni m = Return x c \<longrightarrow> step x = step m) \<and>
   (refilter uni m = Next x \<longrightarrow> step x = step m)"
  by (cases "step m")
     (auto simp: refilter_def Let_def preview_not_Next dest: preview_step split: if_splits)

lemma key_step:
  assumes "conclude (and_then (and_then (and_then (arrows s m) (letters s)) (edit s))
      (refilter uni)) = Inr (m', c)"
  shows "step m' = step m \<or>
      (s = ''enter'' \<and> step m = stateInstance \<and> step m' = stateDone \<and> c = Quit)"
proof (cases "arrows s m")
  case (Abort p)
  with assms show ?thesis by (simp add: and_then_def conclude_def)
next
  case (Return x d)
  with assms arrows_step [of s m x d] show ?thesis
    by (auto simp: and_then_def conclude_def)
next
  case a: (Next m1)
  with arrows_step [of s m m1] have s1: "step m1 = step m" by simp
  show ?thesis
  proof (cases "letters s m1")
    case (Abort p)
    with assms a show ?thesis by (simp add: and_then_def conclude_def)
  next
    case (Return x d)
    with assms a s1 letters_step [of s m1 x d] show ?thesis
      by (auto simp: and_then_def conclude_def)
  next
    case l: (Next m2)
    with letters_step [of s m1 m2] s1 have s2: "step m2 = step m" by simp
    show ?thesis
    proof (cases "edit s m2")
      case (Abort p)
      with assms a l show ?thesis by (simp add: and_then_def conclude_def)
    next
      case (Return x d)
      with assms a l s2 edit_step [of s m2 x d] show ?thesis
        by (auto simp: and_then_def conclude_def)
    next
      case e: (Next m3)
      with edit_step [of s m2 m3] s2 have s3: "step m3 = step m" by simp
      from assms a l e have "conclude (refilter uni m3) = Inr (m', c)"
        by (simp add: and_then_def)
      with refilter_step [of uni m3 m' c] s3 show ?thesis
        by (cases "refilter uni m3") (auto simp: conclude_def finish_def)
    qed
  qed
qed

lemma only_enter_reaches_Done:
  assumes "Update uni m ms = Inr (m', c)" and "step m' = stateDone" and "step m \<noteq> stateDone"
  shows "ms = KeyMsg ''enter'' \<and> step m = stateInstance \<and> \<not> loading m \<and> c = Quit"
proof (cases ms)
  case (KeyMsg s)
  show ?thesis
  proof (cases "quitKey s \<or> loading m")
    case True
    with assms KeyMsg show ?thesis by (auto simp: Update_def split: if_splits)
  next
    case False
    with assms(1) KeyMsg
    have "conclude (and_then (and_then (and_then (arrows s m) (letters s)) (edit s))
        (refilter uni)) = Inr (m', c)"
      by (simp add: Update_def)
    from key_step [OF this] assms(2,3) False KeyMsg show ?thesis by auto
  qed
next
  case (RegionsMsg rs e)
  with assms show ?thesis by (cases e) (auto simp: Update_def finish_def)
next
  case (InstancesMsg insts e)
  with assms show ?thesis by (cases e) (auto simp: Update_def finish_def)
next
  case (TagsMsg tags ident e)
  with assms show ?thesis by (auto simp: Update_def finish_def split: if_splits)
next
  case TickMsg
  with assms show ?thesis by (auto simp: Update_def finish_def split: if_splits)
qed

section \<open>The claims\<close>

text \<open>
  The theorems hold for every Unicode path \<open>uni\<close> of \<^verbatim>\<open>strings.ToLower\<close>. The
  examples run on ASCII strings only, where that path is never taken; they put the
  identity in its place.
\<close>

text \<open>
  C1. With loading false and an empty filter query, the key \<open>j\<close> is meant to move the
  cursor and to leave the query empty. On the profile stage the code moves the cursor
  and then falls through to the \<^verbatim>\<open>default\<close> case of the next switch, which appends
  the letter to the query: with the profiles \<open>default\<close> and \<open>prod\<close> and the cursor at
  0, the query becomes \<open>j\<close>, no profile matches it, and the cursor is back at 0.
\<close>

theorem letter_j_enters_filter:
  "Update id (initialModel [''default'', ''prod''] None) (KeyMsg ''j'') =
     Inr ((initialModel [''default'', ''prod''] None)
            \<lparr>filter_q := ''j'', filteredProfiles := [], cursor := 0\<rparr>, NoCmd)"
  by code_simp

text \<open>
  C2. A region-list result that carries an error clears loading, records the error and
  leaves the stage as it is, but the command it returns is \<^verbatim>\<open>nil\<close>, not
  \<^verbatim>\<open>tea.Quit\<close>: the loop goes on, and a further Enter starts the fetch again. Here
  the operator confirms the first profile, the fetch times out, and Enter is pressed
  once more.
\<close>

theorem fetch_error_no_quit:
  "Update id (initialModel [''default'', ''prod''] None) (KeyMsg ''enter'') =
     Inr ((initialModel [''default'', ''prod''] None)
            \<lparr>selectedProfile := ''default'', loading := True\<rparr>, regionsCmd ''default'') \<and>
   Update id ((initialModel [''default'', ''prod''] None)
            \<lparr>selectedProfile := ''default'', loading := True\<rparr>)
       (RegionsMsg [] (Some ''timeout loading regions'')) =
     Inr ((initialModel [''default'', ''prod''] None)
            \<lparr>selectedProfile := ''default'', loading := False,
             err := Some ''timeout loading regions''\<rparr>, NoCmd) \<and>
   Update id ((initialModel [''default'', ''prod''] None)
            \<lparr>selectedProfile := ''default'', loading := False,
             err := Some ''timeout loading regions''\<rparr>) (KeyMsg ''enter'') =
     Inr ((initialModel [''default'', ''prod''] None)
            \<lparr>selectedProfile := ''default'', loading := True,
             err := Some ''timeout loading regions''\<rparr>, regionsCmd ''default'')"
  by code_simp

text \<open>
  C3. From every reachable state, every message is handled without a panic, and in the
  state that results the cursor is an index into the filtered list of the current stage,
  and is 0 when that list is empty. The stage \<open>stateDone\<close> has no list, and nothing is
  asked of the cursor there.
\<close>

theorem cursor_invariant:
  assumes "reachable uni m"
  shows "\<exists>m' c. Update uni m ms = Inr (m', c) \<and> cursorOK m'"
  using Update_navInv [OF reachable_navInv [OF assms], of uni ms]
  by (auto simp: navInv_def)

theorem cursor_invariant_witness:
  "reachable id (initialModel [''default'', ''prod''] None) \<and>
   Update id (initialModel [''default'', ''prod''] None) (KeyMsg ''down'') =
     Inr ((initialModel [''default'', ''prod''] None)\<lparr>cursor := 1\<rparr>, NoCmd) \<and>
   cursorOK ((initialModel [''default'', ''prod''] None)\<lparr>cursor := 1\<rparr>)"
proof -
  have r: "reachable id (initialModel [''default'', ''prod''] None)"
    by (rule reach_init)
  have ev: "Update id (initialModel [''default'', ''prod''] None) (KeyMsg ''down'') =
     Inr ((initialModel [''default'', ''prod''] None)\<lparr>cursor := 1\<rparr>, NoCmd)"
    by code_simp
  from cursor_invariant [OF r, of "KeyMsg ''down''"] ev
  have "cursorOK ((initialModel [''default'', ''prod''] None)\<lparr>cursor := 1\<rparr>)"
    by auto
  with r ev show ?thesis by blast
qed

text \<open>
  C4. A tag result whose instance identifier is not \<open>previewInstanceId\<close> leaves the
  whole model as it was; one whose identifier is \<open>previewInstanceId\<close> writes
  \<open>previewTags\<close> and clears \<open>previewLoading\<close> and nothing else. Neither changes the
  stage, the cursor or the loading flag. In whichever order a stale result and the
  current one arrive, the model ends with the tags of the current one.
\<close>

theorem preview_result:
  "(ident \<noteq> previewInstanceId m \<longrightarrow>
      Update uni m (TagsMsg tags ident e) = Inr (m, if loading m then spinnerTick else NoCmd)) \<and>
   (ident = previewInstanceId m \<longrightarrow>
      Update uni m (TagsMsg tags ident e) =
        Inr (m\<lparr>previewTags := tags, previewLoading := False\<rparr>,
             if loading m then spinnerTick else NoCmd)) \<and>
   (\<exists>m' c. Update uni m (TagsMsg tags ident e) = Inr (m', c) \<and>
      step m' = step m \<and> cursor m' = cursor m \<and> loading m' = loading m) \<and>
   (ident \<noteq> previewInstanceId m \<longrightarrow>
      runMsgs uni m [TagsMsg tags ident e, TagsMsg tags' (previewInstanceId m) e'] =
        Inr (m\<lparr>previewTags := tags', previewLoading := False\<rparr>) \<and>
      runMsgs uni m [TagsMsg tags' (previewInstanceId m) e', TagsMsg tags ident e] =
        Inr (m\<lparr>previewTags := tags', previewLoading := False\<rparr>))"
  by (simp add: Update_def finish_def)

theorem preview_result_witness:
  "''i-1'' \<noteq> previewInstanceId ((initialModel [] None)\<lparr>previewInstanceId := ''i-2''\<rparr>) \<and>
   Update id ((initialModel [] None)\<lparr>previewInstanceId := ''i-2''\<rparr>)
       (TagsMsg [\<lparr>Key = ''Name'', Value = ''web''\<rparr>] ''i-1'' None) =
     Inr ((initialModel [] None)\<lparr>previewInstanceId := ''i-2''\<rparr>, NoCmd) \<and>
   runMsgs id ((initialModel [] None)\<lparr>previewInstanceId := ''i-2''\<rparr>)
       [TagsMsg [\<lparr>Key = ''Name'', Value = ''web''\<rparr>] ''i-1'' None,
        TagsMsg [\<lparr>Key = ''Name'', Value = ''db''\<rparr>] ''i-2'' None] =
     Inr ((initialModel [] None)
       \<lparr>previewInstanceId := ''i-2'', previewTags := [\<lparr>Key = ''Name'', Value = ''db''\<rparr>],
        previewLoading := False\<rparr>) \<and>
   runMsgs id ((initialModel [] None)\<lparr>previewInstanceId := ''i-2''\<rparr>)
       [TagsMsg [\<lparr>Key = ''Name'', Value = ''db''\<rparr>] ''i-2'' None,
        TagsMsg [\<lparr>Key = ''Name'', Value = ''web''\<rparr>] ''i-1'' None] =
     Inr ((initialModel [] None)
       \<lparr>previewInstanceId := ''i-2'', previewTags := [\<lparr>Key = ''Name'', Value = ''db''\<rparr>],
        previewLoading := False\<rparr>) \<and>
   Update id ((initialModel [] None)\<lparr>previewInstanceId := ''i-2''\<rparr>)
       (TagsMsg [\<lparr>Key = ''Name'', Value = ''db''\<rparr>] ''i-2'' None) =
     Inr ((initialModel [] None)
       \<lparr>previewInstanceId := ''i-2'', previewTags := [\<lparr>Key = ''Name'', Value = ''db''\<rparr>],
        previewLoading := False\<rparr>, NoCmd)"
proof -
  let ?m = "(initialModel [] None)\<lparr>previewInstanceId := ''i-2''\<rparr>"
  have ne: "''i-1'' \<noteq> previewInstanceId ?m" by simp
  have nl: "\<not> loading ?m" by (simp add: initialModel_def)
  have p: "previewInstanceId ?m = ''i-2''" by simp
  note t = preview_result [of "''i-1''" ?m id "[\<lparr>Key = ''Name'', Value = ''web''\<rparr>]" None
      "[\<lparr>Key = ''Name'', Value = ''db''\<rparr>]" None]
  from t ne nl have 1: "Update id ?m (TagsMsg [\<lparr>Key = ''Name'', Value = ''web''\<rparr>] ''i-1'' None) =
      Inr (?m, NoCmd)"
    by simp
  from t ne have 2: "runMsgs id ?m
       [TagsMsg [\<lparr>Key = ''Name'', Value = ''web''\<rparr>] ''i-1'' None,
        TagsMsg [\<lparr>Key = ''Name'', Value = ''db''\<rparr>] (previewInstanceId ?m) None] =
     Inr (?m\<lparr>previewTags := [\<lparr>Key = ''Name'', Value = ''db''\<rparr>], previewLoading := False\<rparr>)"
    and 3: "runMsgs id ?m
       [TagsMsg [\<lparr>Key = ''Name'', Value = ''db''\<rparr>] (previewInstanceId ?m) None,
        TagsMsg [\<lparr>Key = ''Name'', Value = ''web''\<rparr>] ''i-1'' None] =
     Inr (?m\<lparr>previewTags := [\<lparr>Key = ''Name'', Value = ''db''\<rparr>], previewLoading := False\<rparr>)"
    by blast+
  from preview_result [of "''i-2''" ?m id "[\<lparr>Key = ''Name'', Value = ''db''\<rparr>]" None] p nl
  have 4: "Update id ?m (TagsMsg [\<lparr>Key = ''Name'', Value = ''db''\<rparr>] ''i-2'' None) =
      Inr (?m\<lparr>previewTags := [\<lparr>Key = ''Name'', Value = ''db''\<rparr>], previewLoading := False\<rparr>,
           NoCmd)"
    by simp
  from ne 1 2 3 4 show ?thesis unfolding p by blast
qed

text \<open>
  C5. While loading is true, a key that is not one of the quit keys leaves the model
  unchanged and returns no command.
\<close>

theorem loading_gate:
  "loading m \<Longrightarrow> \<not> quitKey s \<Longrightarrow> Update uni m (KeyMsg s) = Inr (m, NoCmd)"
  by (simp add: Update_def)

theorem loading_gate_witness:
  "loading ((initialModel [''default'', ''prod''] None)\<lparr>cursor := 1, loading := True\<rparr>) \<and>
   \<not> quitKey ''j'' \<and>
   Update id ((initialModel [''default'', ''prod''] None)\<lparr>cursor := 1, loading := True\<rparr>)
     (KeyMsg ''j'') =
   Inr ((initialModel [''default'', ''prod''] None)\<lparr>cursor := 1, loading := True\<rparr>, NoCmd)"
proof -
  let ?m = "(initialModel [''default'', ''prod''] None)\<lparr>cursor := 1, loading := True\<rparr>"
  have l: "loading ?m" by simp
  have q: "\<not> quitKey ''j''" by (simp add: quitKey_def)
  from loading_gate [OF l q, of id] l q show ?thesis by blast
qed

text \<open>
  C6. \<open>filterList\<close> returns the list itself for the empty query. For a non-empty query
  it returns, in their order in the list, exactly the items that contain the query as a
  case-insensitive substring; for a query and items of ASCII bytes these are the items
  with a substring that differs from the query at most in the case of its letters. As a
  HOL function, \<open>filterList\<close> is total and has no effect beyond its result.
\<close>

theorem filterList_spec:
  "filterList uni L [] = L \<and>
   (q \<noteq> [] \<longrightarrow> filterList uni L q = filter (ciSubstring uni q) L) \<and>
   (q \<noteq> [] \<longrightarrow> isASCII q \<longrightarrow> list_all isASCII L \<longrightarrow>
      filterList uni L q =
        filter (\<lambda>item. \<exists>u. sublist u item \<and> map lowerASCII u = map lowerASCII q) L)"
proof (intro conjI impI)
  show "filterList uni L [] = L" by (simp add: filterList_def)
next
  assume "q \<noteq> []"
  then show "filterList uni L q = filter (ciSubstring uni q) L"
    by (simp add: filterList_filter ciSubstring_def [abs_def])
next
  assume q: "q \<noteq> []" and a: "isASCII q" and l: "list_all isASCII L"
  have "filter (\<lambda>item. sublist (ToLower uni q) (ToLower uni item)) L =
      filter (\<lambda>item. \<exists>u. sublist u item \<and> map lowerASCII u = map lowerASCII q) L"
  proof (rule filter_cong [OF refl])
    fix item assume "item \<in> set L"
    with l have "isASCII item" by (simp add: list_all_iff)
    with a show "sublist (ToLower uni q) (ToLower uni item) \<longleftrightarrow>
        (\<exists>u. sublist u item \<and> map lowerASCII u = map lowerASCII q)"
      by (simp add: ToLower_def map_sublist_iff)
  qed
  with q show "filterList uni L q =
      filter (\<lambda>item. \<exists>u. sublist u item \<and> map lowerASCII u = map lowerASCII q) L"
    by (simp add: filterList_filter)
qed

theorem filterList_spec_witness:
  "''us'' \<noteq> [] \<and> isASCII ''us'' \<and>
   list_all isASCII [''US-East-1'', ''us-west-2'', ''EU-West-1''] \<and>
   filterList id [''US-East-1'', ''us-west-2'', ''EU-West-1''] ''us'' =
     filter (ciSubstring id ''us'') [''US-East-1'', ''us-west-2'', ''EU-West-1''] \<and>
   filter (ciSubstring id ''us'') [''US-East-1'', ''us-west-2'', ''EU-West-1''] =
     [''US-East-1'', ''us-west-2''] \<and>
   filterList id [''US-East-1'', ''us-west-2'', ''EU-West-1''] ''us'' =
     filter (\<lambda>item. \<exists>u. sublist u item \<and> map lowerASCII u = map lowerASCII ''us'')
       [''US-East-1'', ''us-west-2'', ''EU-West-1'']"
proof -
  have ne: "''us'' \<noteq> []" by simp
  have aq: "isASCII ''us''" by code_simp
  have al: "list_all isASCII [''US-East-1'', ''us-west-2'', ''EU-West-1'']" by code_simp
  have ev: "filter (ciSubstring id ''us'') [''US-East-1'', ''us-west-2'', ''EU-West-1''] =
     [''US-East-1'', ''us-west-2'']"
    by code_simp
  from filterList_spec [of id "[''US-East-1'', ''us-west-2'', ''EU-West-1'']" "''us''"] ne aq al ev
  show ?thesis by blast
qed

text \<open>
  C7. Enter on the instance stage, loading false. With an empty filtered list the model
  records the error \<open>no instances found\<close> and the command is Quit. Otherwise, the
  cursor being in bounds, the model records as \<open>selectedInstance\<close> the part of the
  highlighted entry before its first space, moves to \<open>stateDone\<close>, and the command is
  Quit. The part before the first space of \<open>i-123 (web-server)\<close> and of \<open>i-123\<close> is
  \<open>i-123\<close>. No other message, and Enter on no other stage, takes a model into
  \<open>stateDone\<close>.
\<close>

theorem enter_on_instance:
  assumes "step m = stateInstance" and "\<not> loading m"
  shows
    "(filteredInstances m = [] \<longrightarrow>
        Update uni m (KeyMsg ''enter'') = Inr (m\<lparr>err := Some ''no instances found''\<rparr>, Quit)) \<and>
     (filteredInstances m \<noteq> [] \<longrightarrow> cursorOK m \<longrightarrow>
        Update uni m (KeyMsg ''enter'') =
          Inr (m\<lparr>selectedInstance :=
                   takeWhile (\<lambda>c. c \<noteq> CHR '' '') (filteredInstances m ! nat (cursor m)),
                 step := stateDone\<rparr>, Quit)) \<and>
     extractId item = Inr (takeWhile (\<lambda>c. c \<noteq> CHR '' '') item) \<and>
     extractId ''i-123 (web-server)'' = Inr ''i-123'' \<and>
     extractId ''i-123'' = Inr ''i-123'' \<and>
     (Update uni n ms = Inr (n', c) \<longrightarrow> step n' = stateDone \<longrightarrow> step n \<noteq> stateDone \<longrightarrow>
        ms = KeyMsg ''enter'' \<and> step n = stateInstance \<and> \<not> loading n \<and> c = Quit)"
proof (intro conjI impI)
  assume "filteredInstances m = []"
  with assms show "Update uni m (KeyMsg ''enter'') = Inr (m\<lparr>err := Some ''no instances found''\<rparr>, Quit)"
    by (simp add: key_enter enter_def and_then_def conclude_def)
next
  assume "filteredInstances m \<noteq> []" and "cursorOK m"
  with assms show "Update uni m (KeyMsg ''enter'') =
          Inr (m\<lparr>selectedInstance :=
                   takeWhile (\<lambda>c. c \<noteq> CHR '' '') (filteredInstances m ! nat (cursor m)),
                 step := stateDone\<rparr>, Quit)"
    by (simp add: key_enter enter_def and_then_def conclude_def cursorOK_def index_inBounds
        extractId_takeWhile)
next
  show "extractId item = Inr (takeWhile (\<lambda>c. c \<noteq> CHR '' '') item)"
    by (rule extractId_takeWhile)
next
  show "extractId ''i-123 (web-server)'' = Inr ''i-123''"
    by (simp add: extractId_takeWhile)
next
  show "extractId ''i-123'' = Inr ''i-123''"
    by (simp add: extractId_takeWhile)
next
  assume "Update uni n ms = Inr (n', c)" and "step n' = stateDone" and "step n \<noteq> stateDone"
  then have *: "ms = KeyMsg ''enter'' \<and> step n = stateInstance \<and> \<not> loading n \<and> c = Quit"
    by (rule only_enter_reaches_Done)
  from * show "ms = KeyMsg ''enter''" by simp
  from * show "step n = stateInstance" by simp
  from * show "\<not> loading n" by simp
  from * show "c = Quit" by simp
qed

theorem enter_on_instance_witness:
  "step ((initialModel [] None)
       \<lparr>step := stateInstance, instances := [''i-123 (web-server)'', ''i-456''],
        filteredInstances := [''i-123 (web-server)'', ''i-456'']\<rparr>) = stateInstance \<and>
   \<not> loading ((initialModel [] None)
       \<lparr>step := stateInstance, instances := [''i-123 (web-server)'', ''i-456''],
        filteredInstances := [''i-123 (web-server)'', ''i-456'']\<rparr>) \<and>
   cursorOK ((initialModel [] None)
       \<lparr>step := stateInstance, instances := [''i-123 (web-server)'', ''i-456''],
        filteredInstances := [''i-123 (web-server)'', ''i-456'']\<rparr>) \<and>
   Update id ((initialModel [] None)
       \<lparr>step := stateInstance, instances := [''i-123 (web-server)'', ''i-456''],
        filteredInstances := [''i-123 (web-server)'', ''i-456'']\<rparr>) (KeyMsg ''enter'') =
     Inr ((initialModel [] None)
       \<lparr>step := stateInstance, instances := [''i-123 (web-server)'', ''i-456''],
        filteredInstances := [''i-123 (web-server)'', ''i-456''],
        selectedInstance := ''i-123'', step := stateDone\<rparr>, Quit) \<and>
   Update id ((initialModel [] None)\<lparr>step := stateInstance\<rparr>) (KeyMsg ''enter'') =
     Inr ((initialModel [] None)
       \<lparr>step := stateInstance, err := Some ''no instances found''\<rparr>, Quit) \<and>
   step ((initialModel [] None)
       \<lparr>step := stateInstance, instances := [''i-123 (web-server)'', ''i-456''],
        filteredInstances := [''i-123 (web-server)'', ''i-456''],
        selectedInstance := ''i-123'', step := stateDone\<rparr>) = stateDone \<and>
   step ((initialModel [] None)
       \<lparr>step := stateInstance, instances := [''i-123 (web-server)'', ''i-456''],
        filteredInstances := [''i-123 (web-server)'', ''i-456'']\<rparr>) \<noteq> stateDone"
proof -
  let ?m = "(initialModel [] None)
       \<lparr>step := stateInstance, instances := [''i-123 (web-server)'', ''i-456''],
        filteredInstances := [''i-123 (web-server)'', ''i-456'']\<rparr>"
  let ?e = "(initialModel [] None)\<lparr>step := stateInstance\<rparr>"
  have s: "step ?m = stateInstance" by simp
  have l: "\<not> loading ?m" by (simp add: initialModel_def)
  have ne: "filteredInstances ?m \<noteq> []" by simp
  have ok: "cursorOK ?m" by (simp add: cursorOK_def inBounds_def initialModel_def)
  from enter_on_instance [OF s l, of id] ne ok
  have "Update id ?m (KeyMsg ''enter'') =
      Inr (?m\<lparr>selectedInstance :=
               takeWhile (\<lambda>c. c \<noteq> CHR '' '') (filteredInstances ?m ! nat (cursor ?m)),
             step := stateDone\<rparr>, Quit)"
    by blast
  then have 1: "Update id ?m (KeyMsg ''enter'') =
      Inr (?m\<lparr>selectedInstance := ''i-123'', step := stateDone\<rparr>, Quit)"
    by (simp add: initialModel_def)
  have s': "step ?e = stateInstance" by simp
  have l': "\<not> loading ?e" by (simp add: initialModel_def)
  have em: "filteredInstances ?e = []" by (simp add: initialModel_def)
  from enter_on_instance [OF s' l', of id] em
  have 2: "Update id ?e (KeyMsg ''enter'') = Inr (?e\<lparr>err := Some ''no instances found''\<rparr>, Quit)"
    by blast
  have d: "step (?m\<lparr>selectedInstance := ''i-123'', step := stateDone\<rparr>) = stateDone" by simp
  have nd: "step ?m \<noteq> stateDone" by simp
  from enter_on_instance [OF s l, where n = ?m and ms = "KeyMsg ''enter''"
      and n' = "?m\<lparr>selectedInstance := ''i-123'', step := stateDone\<rparr>" and c = Quit and uni = id]
    1 d nd
  have "step ?m = stateInstance \<and> \<not> loading ?m" by blast
  with ok 1 2 d nd show ?thesis by blast
qed

text \<open>
  C8. A list result without an error clears loading, installs the list both as the
  list of its stage and as the filtered list, puts the cursor at 0 and empties the
  query, and sets the stage: \<open>stateRegion\<close> for regions, \<open>stateInstance\<close> for instances.
\<close>

theorem list_fetch_success:
  "Update uni m (RegionsMsg rs None) =
     Inr (m\<lparr>loading := False, regions := rs, filteredRegions := rs, cursor := 0,
            filter_q := [], step := stateRegion\<rparr>, NoCmd) \<and>
   Update uni m (InstancesMsg insts None) =
     Inr (m\<lparr>loading := False, instances := insts, filteredInstances := insts, cursor := 0,
            filter_q := [], step := stateInstance\<rparr>, NoCmd)"
  by (simp add: Update_def finish_def)

text \<open>
  C9. A tick that finds loading false changes nothing and returns no command. A tick
  that finds loading true, the frame being an index into \<open>spinnerFrames\<close>, moves the
  frame on by one modulo the number of frames and returns the next tick. So the command
  of a tick is \<open>spinnerTick\<close> exactly when loading is true, and \<open>spinnerTick\<close> sends
  the next tick message after the fixed delay of 80. In every reachable state the
  frame is such an index, and loading is false once the stage is \<open>stateDone\<close>; and
  whenever a message changes the recorded error, loading is false in the state that
  results.
\<close>

theorem tick_while_loading:
  "(\<not> loading m \<longrightarrow> Update uni m TickMsg = Inr (m, NoCmd)) \<and>
   (loading m \<longrightarrow> 0 \<le> spinnerFrame m \<longrightarrow> spinnerFrame m < int (length spinnerFrames) \<longrightarrow>
      Update uni m TickMsg =
        Inr (m\<lparr>spinnerFrame := (spinnerFrame m + 1) mod int (length spinnerFrames)\<rparr>,
             spinnerTick)) \<and>
   (\<exists>m1 c1. Update uni m TickMsg = Inr (m1, c1) \<and> (c1 = spinnerTick \<longleftrightarrow> loading m)) \<and>
   spinnerTick = sleepThen 80 TickMsg \<and>
   (reachable uni m \<longrightarrow>
      0 \<le> spinnerFrame m \<and> spinnerFrame m < int (length spinnerFrames) \<and>
      (step m = stateDone \<longrightarrow> \<not> loading m)) \<and>
   (Update uni m ms = Inr (m', c) \<longrightarrow> err m' \<noteq> err m \<longrightarrow> \<not> loading m')"
proof (intro conjI impI)
  assume "\<not> loading m"
  then show "Update uni m TickMsg = Inr (m, NoCmd)"
    by (simp add: Update_def finish_def)
next
  assume "loading m" and "0 \<le> spinnerFrame m"
    and "spinnerFrame m < int (length spinnerFrames)"
  then show "Update uni m TickMsg =
        Inr (m\<lparr>spinnerFrame := (spinnerFrame m + 1) mod int (length spinnerFrames)\<rparr>,
             spinnerTick)"
    by (simp add: Update_def spinnerFrames_def frame_step)
next
  show "\<exists>m1 c1. Update uni m TickMsg = Inr (m1, c1) \<and> (c1 = spinnerTick \<longleftrightarrow> loading m)"
    by (simp add: Update_def finish_def spinnerTick_def)
next
  show "spinnerTick = sleepThen 80 TickMsg"
    by (rule spinnerTick_def)
next
  assume "reachable uni m"
  then have "navInv m" by (rule reachable_navInv)
  then show "0 \<le> spinnerFrame m" and "spinnerFrame m < int (length spinnerFrames)"
    by (simp_all add: navInv_def)
next
  assume "reachable uni m" and "step m = stateDone"
  with reachable_navInv [of uni m] show "\<not> loading m"
    by (simp add: navInv_def)
next
  assume "Update uni m ms = Inr (m', c)" and "err m' \<noteq> err m"
  then show "\<not> loading m'" by (rule new_error_not_loading)
qed

theorem tick_while_loading_witness:
  "\<not> loading (initialModel [''default'', ''prod''] None) \<and>
   Update id (initialModel [''default'', ''prod''] None) TickMsg =
     Inr (initialModel [''default'', ''prod''] None, NoCmd) \<and>
   loading ((initialModel [''default'', ''prod''] None)
     \<lparr>selectedProfile := ''default'', loading := True\<rparr>) \<and>
   Update id ((initialModel [''default'', ''prod''] None)
       \<lparr>selectedProfile := ''default'', loading := True\<rparr>) TickMsg =
     Inr ((initialModel [''default'', ''prod''] None)
       \<lparr>selectedProfile := ''default'', loading := True, spinnerFrame := 1\<rparr>,
          sleepThen 80 TickMsg) \<and>
   reachable id ((initialModel [''default'', ''prod''] None)
       \<lparr>regions := [''us-east-1''], instances := [''i-1 (web)''],
        selectedProfile := ''default'', selectedRegion := ''us-east-1'',
        selectedInstance := ''i-1'', step := stateDone,
        filteredRegions := [''us-east-1''], filteredInstances := [''i-1 (web)'']\<rparr>) \<and>
   \<not> loading ((initialModel [''default'', ''prod''] None)
       \<lparr>regions := [''us-east-1''], instances := [''i-1 (web)''],
        selectedProfile := ''default'', selectedRegion := ''us-east-1'',
        selectedInstance := ''i-1'', step := stateDone,
        filteredRegions := [''us-east-1''], filteredInstances := [''i-1 (web)'']\<rparr>) \<and>
   Update id ((initialModel [''default'', ''prod''] None)
       \<lparr>selectedProfile := ''default'', loading := True\<rparr>)
       (RegionsMsg [] (Some ''timeout loading regions'')) =
     Inr ((initialModel [''default'', ''prod''] None)
       \<lparr>selectedProfile := ''default'', loading := False,
        err := Some ''timeout loading regions''\<rparr>, NoCmd) \<and>
   err ((initialModel [''default'', ''prod''] None)
       \<lparr>selectedProfile := ''default'', loading := False,
        err := Some ''timeout loading regions''\<rparr>) \<noteq>
     err ((initialModel [''default'', ''prod''] None)
       \<lparr>selectedProfile := ''default'', loading := True\<rparr>) \<and>
   \<not> loading ((initialModel [''default'', ''prod''] None)
       \<lparr>selectedProfile := ''default'', loading := False,
        err := Some ''timeout loading regions''\<rparr>)"
proof -
  let ?m0 = "initialModel [''default'', ''prod''] None"
  let ?mE = "?m0\<lparr>selectedProfile := ''default'', loading := False,
        err := Some ''timeout loading regions''\<rparr>"
  let ?mL = "?m0\<lparr>selectedProfile := ''default'', loading := True\<rparr>"
  let ?mD = "?m0\<lparr>regions := [''us-east-1''], instances := [''i-1 (web)''],
        selectedProfile := ''default'', selectedRegion := ''us-east-1'',
        selectedInstance := ''i-1'', step := stateDone,
        filteredRegions := [''us-east-1''], filteredInstances := [''i-1 (web)'']\<rparr>"
  have a: "\<not> loading ?m0" by (simp add: initialModel_def)
  from tick_while_loading [of ?m0 id] a
  have t0: "Update id ?m0 TickMsg = Inr (?m0, NoCmd)" by blast
  have b: "loading ?mL" by simp
  have f: "0 \<le> spinnerFrame ?mL" "spinnerFrame ?mL < int (length spinnerFrames)"
    by (simp_all add: initialModel_def spinnerFrames_def)
  from tick_while_loading [of ?mL id] b f
  have "Update id ?mL TickMsg =
      Inr (?mL\<lparr>spinnerFrame := (spinnerFrame ?mL + 1) mod int (length spinnerFrames)\<rparr>,
           spinnerTick)"
    by blast
  then have "Update id ?mL TickMsg = Inr (?mL\<lparr>spinnerFrame := 1\<rparr>, spinnerTick)"
    by (simp add: initialModel_def spinnerFrames_def)
  moreover from tick_while_loading [of ?mL id] have "spinnerTick = sleepThen 80 TickMsg"
    by blast
  ultimately have tL: "Update id ?mL TickMsg = Inr (?mL\<lparr>spinnerFrame := 1\<rparr>, sleepThen 80 TickMsg)"
    by simp
  have run: "runMsgs id ?m0
       [KeyMsg ''enter'', RegionsMsg [''us-east-1''] None, KeyMsg ''enter'',
        InstancesMsg [''i-1 (web)''] None, KeyMsg ''enter''] = Inr ?mD"
    by code_simp
  have r: "reachable id ?mD"
    by (rule runMsgs_reachable [OF reach_init run])
  have d: "step ?mD = stateDone" by simp
  from tick_while_loading [of ?mD id] r d have nd: "\<not> loading ?mD" by blast
  have u: "Update id ?mL (RegionsMsg [] (Some ''timeout loading regions'')) = Inr (?mE, NoCmd)"
    by (simp add: Update_def)
  have e: "err ?mE \<noteq> err ?mL" by (simp add: initialModel_def)
  from tick_while_loading [of ?mL id "RegionsMsg [] (Some ''timeout loading regions'')" ?mE NoCmd]
    u e
  have ne: "\<not> loading ?mE" by blast
  from a t0 b tL r nd u e ne show ?thesis by blast
qed

text \<open>
  The frame stands still on a tick that arrives after the load has ended. The operator
  confirms a profile, one tick is handled while the regions load, and the regions
  arrive: the frame is 1. The next tick leaves it at 1 and returns no command.
\<close>

theorem tick_not_loading_counterexample:
  "runMsgs id (initialModel [''default'', ''prod''] None)
       [KeyMsg ''enter'', TickMsg, RegionsMsg [''us-east-1''] None] =
     Inr ((initialModel [''default'', ''prod''] None)
            \<lparr>regions := [''us-east-1''], selectedProfile := ''default'', step := stateRegion,
             filteredRegions := [''us-east-1''], spinnerFrame := 1\<rparr>) \<and>
   Update id ((initialModel [''default'', ''prod''] None)
            \<lparr>regions := [''us-east-1''], selectedProfile := ''default'', step := stateRegion,
             filteredRegions := [''us-east-1''], spinnerFrame := 1\<rparr>) TickMsg =
     Inr ((initialModel [''default'', ''prod''] None)
            \<lparr>regions := [''us-east-1''], selectedProfile := ''default'', step := stateRegion,
             filteredRegions := [''us-east-1''], spinnerFrame := 1\<rparr>, NoCmd) \<and>
   spinnerFrame ((initialModel [''default'', ''prod''] None)
            \<lparr>regions := [''us-east-1''], selectedProfile := ''default'', step := stateRegion,
             filteredRegions := [''us-east-1''], spinnerFrame := 1\<rparr>) = 1 \<and>
   (1 + 1) mod int (length spinnerFrames) = 2"
  by code_simp

text \<open>
  C10. A list result without an error and with an empty list moves to the next stage all
  the same: it installs the empty list with the cursor at 0 and the query empty, and
  leaves the recorded error as it was. On such an empty stage Enter records the error
  \<open>no regions found\<close>, or \<open>no instances found\<close>, and returns Quit; every other key
  leaves the stage empty and the recorded error unchanged.
\<close>

theorem empty_list_fetch:
  "Update uni m (RegionsMsg [] None) =
     Inr (m\<lparr>loading := False, regions := [], filteredRegions := [], cursor := 0,
            filter_q := [], step := stateRegion\<rparr>, NoCmd) \<and>
   emptyRegions (m\<lparr>loading := False, regions := [], filteredRegions := [], cursor := 0,
            filter_q := [], step := stateRegion\<rparr>) \<and>
   Update uni m (InstancesMsg [] None) =
     Inr (m\<lparr>loading := False, instances := [], filteredInstances := [], cursor := 0,
            filter_q := [], step := stateInstance\<rparr>, NoCmd) \<and>
   emptyInstances (m\<lparr>loading := False, instances := [], filteredInstances := [], cursor := 0,
            filter_q := [], step := stateInstance\<rparr>) \<and>
   (emptyRegions m \<longrightarrow>
      Update uni m (KeyMsg ''enter'') = Inr (m\<lparr>err := Some ''no regions found''\<rparr>, Quit)) \<and>
   (emptyInstances m \<longrightarrow>
      Update uni m (KeyMsg ''enter'') = Inr (m\<lparr>err := Some ''no instances found''\<rparr>, Quit)) \<and>
   (emptyRegions m \<longrightarrow> s \<noteq> ''enter'' \<longrightarrow>
      (\<exists>m' c. Update uni m (KeyMsg s) = Inr (m', c) \<and> emptyRegions m' \<and> err m' = err m)) \<and>
   (emptyInstances m \<longrightarrow> s \<noteq> ''enter'' \<longrightarrow>
      (\<exists>m' c. Update uni m (KeyMsg s) = Inr (m', c) \<and> emptyInstances m' \<and> err m' = err m))"
proof (intro conjI impI)
  show "Update uni m (RegionsMsg [] None) =
     Inr (m\<lparr>loading := False, regions := [], filteredRegions := [], cursor := 0,
            filter_q := [], step := stateRegion\<rparr>, NoCmd)"
    by (simp add: Update_def finish_def)
next
  show "emptyRegions (m\<lparr>loading := False, regions := [], filteredRegions := [], cursor := 0,
            filter_q := [], step := stateRegion\<rparr>)"
    by (simp add: emptyRegions_def)
next
  show "Update uni m (InstancesMsg [] None) =
     Inr (m\<lparr>loading := False, instances := [], filteredInstances := [], cursor := 0,
            filter_q := [], step := stateInstance\<rparr>, NoCmd)"
    by (simp add: Update_def finish_def)
next
  show "emptyInstances (m\<lparr>loading := False, instances := [], filteredInstances := [], cursor := 0,
            filter_q := [], step := stateInstance\<rparr>)"
    by (simp add: emptyInstances_def)
next
  assume "emptyRegions m"
  then show "Update uni m (KeyMsg ''enter'') = Inr (m\<lparr>err := Some ''no regions found''\<rparr>, Quit)"
    by (simp add: emptyRegions_def key_enter enter_def and_then_def conclude_def)
next
  assume "emptyInstances m"
  then show "Update uni m (KeyMsg ''enter'') = Inr (m\<lparr>err := Some ''no instances found''\<rparr>, Quit)"
    by (simp add: emptyInstances_def key_enter enter_def and_then_def conclude_def)
next
  assume "emptyRegions m" and "s \<noteq> ''enter''"
  then show "\<exists>m' c. Update uni m (KeyMsg s) = Inr (m', c) \<and> emptyRegions m' \<and> err m' = err m"
    by (rule emptyRegions_key)
next
  assume "emptyInstances m" and "s \<noteq> ''enter''"
  then show "\<exists>m' c. Update uni m (KeyMsg s) = Inr (m', c) \<and> emptyInstances m' \<and> err m' = err m"
    by (rule emptyInstances_key)
qed

theorem empty_list_fetch_witness:
  "emptyRegions ((initialModel [''default''] None)
       \<lparr>loading := False, regions := [], filteredRegions := [], cursor := 0,
        filter_q := [], step := stateRegion\<rparr>) \<and>
   Update id ((initialModel [''default''] None)
       \<lparr>loading := False, regions := [], filteredRegions := [], cursor := 0,
        filter_q := [], step := stateRegion\<rparr>) (KeyMsg ''enter'') =
     Inr ((initialModel [''default''] None)
       \<lparr>loading := False, regions := [], filteredRegions := [], cursor := 0,
        filter_q := [], step := stateRegion, err := Some ''no regions found''\<rparr>, Quit) \<and>
   ''x'' \<noteq> ''enter'' \<and>
   (\<exists>m' c. Update id ((initialModel [''default''] None)
       \<lparr>loading := False, regions := [], filteredRegions := [], cursor := 0,
        filter_q := [], step := stateRegion\<rparr>) (KeyMsg ''x'') = Inr (m', c) \<and>
      emptyRegions m' \<and> err m' = None) \<and>
   emptyInstances ((initialModel [''default''] None)
       \<lparr>loading := False, instances := [], filteredInstances := [], cursor := 0,
        filter_q := [], step := stateInstance\<rparr>) \<and>
   Update id ((initialModel [''default''] None)
       \<lparr>loading := False, instances := [], filteredInstances := [], cursor := 0,
        filter_q := [], step := stateInstance\<rparr>) (KeyMsg ''enter'') =
     Inr ((initialModel [''default''] None)
       \<lparr>loading := False, instances := [], filteredInstances := [], cursor := 0,
        filter_q := [], step := stateInstance, err := Some ''no instances found''\<rparr>, Quit) \<and>
   (\<exists>m' c. Update id ((initialModel [''default''] None)
       \<lparr>loading := False, instances := [], filteredInstances := [], cursor := 0,
        filter_q := [], step := stateInstance\<rparr>) (KeyMsg ''x'') = Inr (m', c) \<and>
      emptyInstances m' \<and> err m' = None)"
proof -
  let ?m = "initialModel [''default''] None"
  let ?r = "?m\<lparr>loading := False, regions := [], filteredRegions := [], cursor := 0,
        filter_q := [], step := stateRegion\<rparr>"
  let ?i = "?m\<lparr>loading := False, instances := [], filteredInstances := [], cursor := 0,
        filter_q := [], step := stateInstance\<rparr>"
  from empty_list_fetch [of id ?m] have er: "emptyRegions ?r" and ei: "emptyInstances ?i"
    by blast+
  have x: "''x'' \<noteq> ''enter''" by simp
  have e0: "err ?r = None" "err ?i = None" by (simp_all add: initialModel_def)
  from empty_list_fetch [of id ?r "''x''"] er x
  have 1: "Update id ?r (KeyMsg ''enter'') = Inr (?r\<lparr>err := Some ''no regions found''\<rparr>, Quit)"
    and 2: "\<exists>m' c. Update id ?r (KeyMsg ''x'') = Inr (m', c) \<and> emptyRegions m' \<and> err m' = err ?r"
    by blast+
  from empty_list_fetch [of id ?i "''x''"] ei x
  have 3: "Update id ?i (KeyMsg ''enter'') = Inr (?i\<lparr>err := Some ''no instances found''\<rparr>, Quit)"
    and 4: "\<exists>m' c. Update id ?i (KeyMsg ''x'') = Inr (m', c) \<and> emptyInstances m' \<and> err m' = err ?i"
    by blast+
  from er ei x 1 2 3 4 show ?thesis unfolding e0 by blast
qed

end
